theory Spec2Isabelle
  imports Complex_Main "HOL-Library.Word" "HOL-Library.Log_Nat"
begin

section \<open>The recurse splitter: data model (src/src/types.ts, src/src/job.ts)\<close>

text \<open>
  A JavaScript string is a sequence of UTF-16 code units: \<open>s.length\<close> counts code units
  and \<open>s.slice(a, b)\<close> cuts at code-unit indices. So a string is a list of 16-bit words,
  \<open>s.length\<close> is \<^const>\<open>length\<close>, and for \<open>0 \<le> mid \<le> s.length\<close> the two slices
  \<open>s.slice(0, mid)\<close> and \<open>s.slice(mid)\<close> are \<^const>\<open>take\<close> and \<^const>\<open>drop\<close>.
\<close>

type_synonym jsstring = "16 word list"

text \<open>Entity ids and property keys are strings that the job only passes around.\<close>

type_synonym entity_id = string

text \<open>
  The tip's \<open>cid\<close> is opaque to the job: it is read from the tip response and handed
  back as \<open>expect_tip\<close>.
\<close>

type_synonym cid = nat

text \<open>
  The values of the additional properties (\<open>[key: string]: unknown\<close>). The job never
  inspects them.
\<close>

datatype jsvalue =
    JNull
  | JBool bool
  | JNum int
  | JStr jsstring
  | JArr "jsvalue list"
  | JObj "(string \<times> jsvalue) list"

text \<open>
  \<open>SplitterTargetProps\<close>: each optional field is an \<open>option\<close> (absent, \<open>undefined\<close>
  and \<open>null\<close> are \<open>None\<close>: the code tests them with \<open>!\<close>, \<open>??\<close> only). The index
  signature is the map \<open>extra\<close> of the remaining keys. The two counters are JavaScript
  numbers, that is IEEE 754 doubles; the data model of the spec (section 3) makes them
  integers, so a counter is the \<open>int\<close> that the double holds, and the arithmetic on it
  is that of doubles (\<open>js_add\<close> below).
\<close>

record props =
  text_prop :: "jsstring option"
  segments :: "jsstring list option"
  split_count :: "int option"
  last_split_depth :: "int option"
  extra :: "string \<rightharpoonup> jsvalue"

text \<open>
  The double nearest to an integer, ties to the even significand (the rounding of every
  arithmetic operation on JavaScript numbers): an integer of at most 53 bits is a double;
  a longer one loses its low bits. (Below the overflow threshold of doubles, near
  \<open>2^1024\<close>; no sum of a double and 1 rounds beyond it.)
\<close>

definition round_double :: "int \<Rightarrow> int" where
  "round_double x =
     (let a = \<bar>x\<bar>; e = bitlen a - 53 in
      if e \<le> 0 then x
      else
        (let u = 2 ^ nat e; q = a div u; r = a mod u;
             q' = (if 2 * r < u then q
                   else if u < 2 * r then q + 1
                   else if even q then q else q + 1)
         in sgn x * (q' * u)))"

text \<open>\<open>a + b\<close> on two JavaScript numbers that hold integers: the exact sum, rounded.\<close>

definition js_add :: "int \<Rightarrow> int \<Rightarrow> int" where
  "js_add a b = round_double (a + b)"

text \<open>The fetched target entity: \<open>target.id\<close> and \<open>target.properties\<close>.\<close>

record target =
  target_id :: entity_id
  properties :: props

text \<open>An \<open>Output\<close> item, the step result \<open>{ entity_id, done }\<close> (\<open>done\<close> is the field \<open>done_flag\<close>).\<close>

record Output =
  entity_id :: entity_id
  done_flag :: bool

text \<open>Error payloads of the API client, opaque to the job.\<close>

datatype api_error = Conflict | NotFound | Unavailable

text \<open>The response \<open>{ data: tip, error: tipError }\<close> of \<open>GET /entities/{id}/tip\<close>.\<close>

record tip =
  tip_cid :: cid

record tip_response =
  tip_data :: "tip option"
  tip_error :: "api_error option"

text \<open>The body of \<open>PUT /entities/{id}\<close>.\<close>

record put_body =
  expect_tip :: cid
  put_properties :: props

text \<open>
  What an invocation of \<open>processJob\<close> can throw: whatever \<open>job.fetchTarget\<close> throws,
  the \<open>RangeError\<close> of a call with more arguments than the engine accepts (line 41),
  and the two \<open>Error\<close>s of lines 80 and 99 (with the payload their message prints).
\<close>

datatype job_error =
    FetchTargetFailed api_error
  | RangeError
  | TipFailed "api_error option"
  | UpdateFailed api_error

text \<open>
  The \<open>KladosJob\<close> handed to \<open>processJob\<close>, as far as the function uses it: the
  recursion depth, and the three calls that reach the outside world. Each call takes the
  state of that world (of any type \<open>'w\<close>) and returns its answer with the new state.
  With it comes the one property of the engine running the job that the function depends
  on: \<open>spread_limit\<close>, the largest number of arguments a call can take (the language
  leaves it to the engine; a spread of a longer array throws \<open>RangeError\<close>).
  The log calls themselves are left out: they only report values and no branch reads
  them. What is kept of them is the computation of a logged value that can throw.
\<close>

record 'w job =
  recurseDepth :: int
  spread_limit :: nat
  fetchTarget :: "'w \<Rightarrow> (api_error + target) \<times> 'w"
  api_GET_tip :: "entity_id \<Rightarrow> 'w \<Rightarrow> tip_response \<times> 'w"
  api_PUT :: "entity_id \<Rightarrow> put_body \<Rightarrow> 'w \<Rightarrow> api_error option \<times> 'w"

section \<open>processJob (src/src/job.ts)\<close>

definition MIN_SEGMENT_LENGTH :: nat where
  "MIN_SEGMENT_LENGTH = 10"

text \<open>
  Lines 32-36: the working segment sequence. \<open>!segments || segments.length === 0\<close>
  falls back to the text; \<open>text ?? ''\<close> and the truthiness test \<open>text ? [text] : []\<close>
  drop an absent or empty text.
\<close>

definition working_segments :: "props \<Rightarrow> jsstring list" where
  "working_segments p =
     (let from_text =
            (let t = (case text_prop p of None \<Rightarrow> [] | Some t \<Rightarrow> t)
             in if t \<noteq> [] then [t] else [])
      in case segments p of
           None \<Rightarrow> from_text
         | Some segs \<Rightarrow> if length segs = 0 then from_text else segs)"

text \<open>Line 41: the \<open>maxLength\<close> that is logged, when its computation returns.\<close>

definition maxLength :: "jsstring list \<Rightarrow> nat" where
  "maxLength segs = (if length segs > 0 then Max (set (map length segs)) else 0)"

text \<open>
  Line 41 as it runs: \<open>Math.max(...segments.map((s) => s.length))\<close> passes one argument
  for each segment, so on an engine that accepts at most \<open>limit\<close> arguments it throws
  \<open>RangeError\<close> when there are more segments than that. With no segment there is no
  call.
\<close>

definition current_state_maxLength :: "nat \<Rightarrow> jsstring list \<Rightarrow> job_error + nat" where
  "current_state_maxLength limit segs =
     (if length segs > 0 then
        (if length (map length segs) > limit then Inl RangeError
         else Inr (Max (set (map length segs))))
      else Inr 0)"

text \<open>Line 45: \<open>segments.every((s) => s.length <= MIN_SEGMENT_LENGTH)\<close>.\<close>

definition allDone :: "jsstring list \<Rightarrow> bool" where
  "allDone segs = list_all (\<lambda>s. length s \<le> MIN_SEGMENT_LENGTH) segs"

text \<open>
  Lines 62-72: the \<open>for\<close> loop over the segments, with its two variables
  \<open>newSegments\<close> and \<open>splitsMade\<close> as the accumulator.
\<close>

fun split_loop :: "jsstring list \<Rightarrow> jsstring list \<times> nat \<Rightarrow> jsstring list \<times> nat" where
  "split_loop [] (newSegments, splitsMade) = (newSegments, splitsMade)"
| "split_loop (segment # rest) (newSegments, splitsMade) =
     (if length segment > MIN_SEGMENT_LENGTH then
        (let mid = length segment div 2
         in split_loop rest (newSegments @ [take mid segment, drop mid segment], splitsMade + 1))
      else split_loop rest (newSegments @ [segment], splitsMade))"

text \<open>Lines 59-72: the loop started from \<open>newSegments = []\<close> and \<open>splitsMade = 0\<close>.\<close>

definition split_segments :: "jsstring list \<Rightarrow> jsstring list \<times> nat" where
  "split_segments segs = split_loop segs ([], 0)"

text \<open>Lines 87-95: the body of the conditional write.\<close>

definition update_body :: "target \<Rightarrow> tip \<Rightarrow> jsstring list \<Rightarrow> int \<Rightarrow> int \<Rightarrow> put_body" where
  "update_body tgt tp newSegments splitCount currentDepth =
     \<lparr>expect_tip = tip_cid tp,
      put_properties = (properties tgt)
        \<lparr>segments := Some newSegments,
         split_count := Some splitCount,
         last_split_depth := Some currentDepth\<rparr>\<rparr>"

text \<open>
  Lines 20-112. A thrown error is \<open>Inl\<close>, the returned outputs are \<open>Inr\<close>; the state of
  the outside world is threaded through the three calls in the order of the source. The
  value logged at line 41 is computed after the fetch and before the all-done check, and
  an error it throws ends the invocation there.
\<close>

definition processJob :: "'w job \<Rightarrow> 'w \<Rightarrow> (job_error + Output list) \<times> 'w" where
  "processJob job w =
     (let currentDepth = recurseDepth job in
      case fetchTarget job w of
        (Inl e, w1) \<Rightarrow> (Inl (FetchTargetFailed e), w1)
      | (Inr tgt, w1) \<Rightarrow>
          (let segs = working_segments (properties tgt) in
           case current_state_maxLength (spread_limit job) segs of
             Inl e \<Rightarrow> (Inl e, w1)
           | Inr logged \<Rightarrow>
           if allDone segs then
             (Inr [\<lparr>entity_id = target_id tgt, done_flag = True\<rparr>], w1)
           else
             (let (newSegments, splitsMade) = split_segments segs in
              case api_GET_tip job (target_id tgt) w1 of
                (resp, w2) \<Rightarrow>
                  (case (tip_error resp, tip_data resp) of
                     (None, Some tp) \<Rightarrow>
                       (let splitCount =
                              js_add (case split_count (properties tgt) of None \<Rightarrow> 0 | Some n \<Rightarrow> n) 1
                        in case api_PUT job (target_id tgt)
                                  (update_body tgt tp newSegments splitCount currentDepth) w2 of
                             (Some updateError, w3) \<Rightarrow> (Inl (UpdateFailed updateError), w3)
                           | (None, w3) \<Rightarrow>
                               (Inr [\<lparr>entity_id = target_id tgt, done_flag = False\<rparr>], w3))
                   | (tipError, _) \<Rightarrow> (Inl (TipFailed tipError), w2)))))"

section \<open>The record store\<close>

text \<open>
  Modelled from the spec: the external record store, which is a service and not code of
  this repository. Section 6 gives its interface, \<open>read-current-state(id)\<close> returning
  the properties and the version token, and
  \<open>conditional-write(id, expected version token, new properties)\<close> returning success
  or a conflict error; sections 4.2 and 5 say that the write is one atomic conditional
  operation that either fully applies or fully rejects. The store holds one record; every
  applied write gives it a new revision, so a token is never handed out twice.
\<close>

record store =
  st_id :: entity_id
  st_props :: props
  st_tip :: cid

text \<open>
  Modelled from the spec: an applied write (section 6, conditional-write on success). It
  replaces the properties and moves the record to its next revision.
\<close>

definition store_write :: "props \<Rightarrow> store \<Rightarrow> store" where
  "store_write p st = st\<lparr>st_props := p, st_tip := Suc (st_tip st)\<rparr>"

text \<open>
  What the outside does during one invocation: a call may fail (the fault is the error it
  reports), and other writers may have their writes applied between the read of the
  record and the read of the token (\<open>before_tip\<close>), and between the read of the token and
  the write (\<open>before_put\<close>). The plan also names the engine's limit on the number of
  arguments of a call.
\<close>

record plan =
  max_arguments :: nat
  fetch_fault :: "api_error option"
  tip_fault :: "api_error option"
  put_fault :: "api_error option"
  before_tip :: "props list"
  before_put :: "props list"

definition concurrent_writes :: "props list \<Rightarrow> store \<Rightarrow> store" where
  "concurrent_writes ps st = fold store_write ps st"

text \<open>
  Modelled from the spec: the three calls of the client, answered by the store (section
  6). The fetch returns the record as it is; the tip read returns its current revision;
  the write applies when \<open>expect_tip\<close> is the current revision and is rejected with a
  conflict otherwise, the record then staying as it is. The writes of other writers are
  applied just before the call they precede.
\<close>

definition store_fetchTarget :: "plan \<Rightarrow> store \<Rightarrow> (api_error + target) \<times> store" where
  "store_fetchTarget pl st =
     (case fetch_fault pl of
        Some e \<Rightarrow> (Inl e, st)
      | None \<Rightarrow> (Inr \<lparr>target_id = st_id st, properties = st_props st\<rparr>, st))"

definition store_GET_tip :: "plan \<Rightarrow> entity_id \<Rightarrow> store \<Rightarrow> tip_response \<times> store" where
  "store_GET_tip pl i st =
     (let st1 = concurrent_writes (before_tip pl) st in
      case tip_fault pl of
        Some e \<Rightarrow> (\<lparr>tip_data = None, tip_error = Some e\<rparr>, st1)
      | None \<Rightarrow>
          if i = st_id st1 then (\<lparr>tip_data = Some \<lparr>tip_cid = st_tip st1\<rparr>, tip_error = None\<rparr>, st1)
          else (\<lparr>tip_data = None, tip_error = Some NotFound\<rparr>, st1))"

definition store_PUT :: "plan \<Rightarrow> entity_id \<Rightarrow> put_body \<Rightarrow> store \<Rightarrow> api_error option \<times> store" where
  "store_PUT pl i body st =
     (let st1 = concurrent_writes (before_put pl) st in
      case put_fault pl of
        Some e \<Rightarrow> (Some e, st1)
      | None \<Rightarrow>
          if i \<noteq> st_id st1 then (Some NotFound, st1)
          else if expect_tip body = st_tip st1 then (None, store_write (put_properties body) st1)
          else (Some Conflict, st1))"

text \<open>The job of one invocation against the store, at a recursion depth.\<close>

definition store_job :: "int \<Rightarrow> plan \<Rightarrow> store job" where
  "store_job depth pl =
     \<lparr>recurseDepth = depth,
      spread_limit = max_arguments pl,
      fetchTarget = store_fetchTarget pl,
      api_GET_tip = store_GET_tip pl,
      api_PUT = store_PUT pl\<rparr>"

text \<open>
  The plan of an undisturbed invocation: no fault, no other writer, on an engine that
  accepts 125000 arguments (the limit is the engine's own and depends on its stack; with
  a default stack it is of this order).
\<close>

definition quiet :: plan where
  "quiet = \<lparr>max_arguments = 125000, fetch_fault = None, tip_fault = None, put_fault = None,
            before_tip = [], before_put = []\<rparr>"

section \<open>Example records\<close>

text \<open>
  The records of the end-to-end tests (test/recurse.test.ts): a text of 80 times \<open>A\<close>
  and the text \<open>SMALL\<close>, each with a label, and nothing else.
\<close>

definition record_A :: store where
  "record_A =
     \<lparr>st_id = ''entity_A'',
      st_props = \<lparr>text_prop = Some (replicate 80 0x41), segments = None, split_count = None,
                  last_split_depth = None, extra = [''label'' \<mapsto> JStr [0x52, 0x54]]\<rparr>,
      st_tip = 0\<rparr>"

definition record_B :: store where
  "record_B =
     \<lparr>st_id = ''entity_B'',
      st_props = \<lparr>text_prop = Some [0x53, 0x4D, 0x41, 0x4C, 0x4C], segments = None,
                  split_count = None, last_split_depth = None,
                  extra = [''label'' \<mapsto> JStr [0x53, 0x54]]\<rparr>,
      st_tip = 0\<rparr>"

text \<open>A record with neither text nor segments.\<close>

definition record_E :: store where
  "record_E =
     \<lparr>st_id = ''entity_E'',
      st_props = \<lparr>text_prop = None, segments = None, split_count = None,
                  last_split_depth = None, extra = Map.empty\<rparr>,
      st_tip = 0\<rparr>"

text \<open>
  The record that a text of 1310720 times \<open>A\<close> has become after 17 split rounds:
  131072 segments of length 10.
\<close>

definition record_M :: store where
  "record_M =
     \<lparr>st_id = ''entity_M'',
      st_props = \<lparr>text_prop = Some (replicate 1310720 0x41),
                  segments = Some (replicate 131072 (replicate 10 0x41)),
                  split_count = Some 17, last_split_depth = Some 0,
                  extra = [''label'' \<mapsto> JStr [0x4D]]\<rparr>,
      st_tip = 17\<rparr>"

text \<open>A record of one long segment whose \<open>split_count\<close> is \<open>2^53\<close>.\<close>

definition record_N :: store where
  "record_N =
     \<lparr>st_id = ''entity_N'',
      st_props = \<lparr>text_prop = None, segments = Some [replicate 12 0x41],
                  split_count = Some 9007199254740992, last_split_depth = Some 0,
                  extra = Map.empty\<rparr>,
      st_tip = 0\<rparr>"

text \<open>Another writer's update of \<open>record_A\<close>: it changes the label only.\<close>

definition relabelled :: props where
  "relabelled = (st_props record_A)\<lparr>extra := [''label'' \<mapsto> JStr [0x58]]\<rparr>"

section \<open>The split loop\<close>

lemma split_loop_acc:
  "split_loop segs (acc, n) =
     (acc @ concat (map (\<lambda>s. if MIN_SEGMENT_LENGTH < length s
                            then [take (length s div 2) s, drop (length s div 2) s] else [s]) segs),
      n + length (filter (\<lambda>s. MIN_SEGMENT_LENGTH < length s) segs))"
  by (induction segs arbitrary: acc n) (simp_all add: Let_def)

lemma split_segments_eq:
  "split_segments segs =
     (concat (map (\<lambda>s. if MIN_SEGMENT_LENGTH < length s
                      then [take (length s div 2) s, drop (length s div 2) s] else [s]) segs),
      length (filter (\<lambda>s. MIN_SEGMENT_LENGTH < length s) segs))"
  by (simp add: split_segments_def split_loop_acc)

lemma split_segments_Nil: "split_segments [] = ([], 0)"
  by (simp add: split_segments_def)

lemma split_segments_Cons:
  "split_segments (s # segs) =
     ((if MIN_SEGMENT_LENGTH < length s
       then [take (length s div 2) s, drop (length s div 2) s] else [s]) @ fst (split_segments segs),
      (if MIN_SEGMENT_LENGTH < length s then 1 else 0) + snd (split_segments segs))"
  by (simp add: split_segments_eq)

lemma allDone_Nil: "allDone []"
  by (simp add: allDone_def)

lemma allDone_Cons: "allDone (s # segs) \<longleftrightarrow> length s \<le> MIN_SEGMENT_LENGTH \<and> allDone segs"
  by (simp add: allDone_def)

lemma allDone_fixed: "allDone segs \<Longrightarrow> split_segments segs = (segs, 0)"
  by (induction segs) (auto simp: split_segments_Nil split_segments_Cons allDone_Cons)

lemma length_split_segments:
  "length (fst (split_segments segs)) = length segs + snd (split_segments segs)"
  by (induction segs) (auto simp: split_segments_Nil split_segments_Cons)

lemma not_allDone_splits: "\<not> allDone segs \<Longrightarrow> 0 < snd (split_segments segs)"
  by (induction segs) (auto simp: split_segments_Nil split_segments_Cons allDone_Cons allDone_Nil)

lemma bound_halves:
  "\<forall>s \<in> set segs. length s \<le> MIN_SEGMENT_LENGTH * 2 ^ Suc k \<Longrightarrow>
   \<forall>s \<in> set (fst (split_segments segs)). length s \<le> MIN_SEGMENT_LENGTH * 2 ^ k"
proof (induction segs)
  case Nil
  then show ?case by (simp add: split_segments_Nil)
next
  case (Cons s segs)
  have le: "length s \<le> 2 * (MIN_SEGMENT_LENGTH * 2 ^ k)"
    using Cons.prems by simp
  have small: "MIN_SEGMENT_LENGTH \<le> MIN_SEGMENT_LENGTH * 2 ^ k"
    by simp
  from le have "length s div 2 \<le> MIN_SEGMENT_LENGTH * 2 ^ k"
    and "length s - length s div 2 \<le> MIN_SEGMENT_LENGTH * 2 ^ k"
    by linarith+
  moreover have "\<not> MIN_SEGMENT_LENGTH < length s \<Longrightarrow> length s \<le> MIN_SEGMENT_LENGTH * 2 ^ k"
    using small by linarith
  moreover have "\<forall>s \<in> set (fst (split_segments segs)). length s \<le> MIN_SEGMENT_LENGTH * 2 ^ k"
    using Cons by simp
  ultimately show ?case
    by (simp add: split_segments_Cons)
qed

lemma rounds_bound:
  "\<forall>s \<in> set segs. length s \<le> MIN_SEGMENT_LENGTH * 2 ^ k \<Longrightarrow>
   allDone (((\<lambda>S. fst (split_segments S)) ^^ k) segs)"
proof (induction k arbitrary: segs)
  case 0
  then show ?case by (simp add: allDone_def list_all_iff)
next
  case (Suc k)
  have "allDone (((\<lambda>S. fst (split_segments S)) ^^ k) (fst (split_segments segs)))"
    by (rule Suc.IH) (rule bound_halves [OF Suc.prems])
  then show ?case by (simp add: funpow_Suc_right del: funpow.simps)
qed

lemma rounds_stay:
  "allDone segs \<Longrightarrow> ((\<lambda>S. fst (split_segments S)) ^^ j) segs = segs"
  by (induction j) (simp_all add: allDone_fixed)

lemma maxLength_ge: "s \<in> set segs \<Longrightarrow> length s \<le> maxLength segs"
  by (auto simp: maxLength_def)

lemma log_bound:
  fixes L :: nat
  shows "L \<le> MIN_SEGMENT_LENGTH * 2 ^ nat \<lceil>log 2 (real L / 10)\<rceil>"
proof (cases "L = 0")
  case True
  then show ?thesis by simp
next
  case False
  define x where "x = real L / 10"
  have xpos: "0 < x" using False by (simp add: x_def)
  have "log 2 x \<le> real_of_int \<lceil>log 2 x\<rceil>" by linarith
  also have "\<dots> \<le> real (nat \<lceil>log 2 x\<rceil>)" by simp
  finally have "2 powr log 2 x \<le> 2 powr real (nat \<lceil>log 2 x\<rceil>)"
    by simp
  then have "x \<le> 2 ^ nat \<lceil>log 2 x\<rceil>"
    using xpos by (simp add: powr_realpow)
  then have "real L \<le> 10 * 2 ^ nat \<lceil>log 2 x\<rceil>"
    by (simp add: x_def)
  then have "real L \<le> real (10 * 2 ^ nat \<lceil>log 2 x\<rceil>)"
    by simp
  then have "L \<le> 10 * 2 ^ nat \<lceil>log 2 x\<rceil>"
    by (simp only: of_nat_le_iff)
  then show ?thesis by (simp add: MIN_SEGMENT_LENGTH_def x_def)
qed

section \<open>Sums of JavaScript numbers\<close>

lemma round_double_exact:
  assumes "\<bar>x\<bar> \<le> 2 ^ 53"
  shows "round_double x = x"
proof (cases "\<bar>x\<bar> = 2 ^ 53")
  case True
  have b: "bitlen 9007199254740992 = 54"
    using bitlen_twopow_add_eq [of 0 53] by simp
  from True have "x = 2 ^ 53 \<or> x = - (2 ^ 53)" by linarith
  then show ?thesis
    by (auto simp: round_double_def b Let_def)
next
  case False
  with assms have "\<bar>x\<bar> < 2 ^ nat 53" by simp
  then have "bitlen \<bar>x\<bar> \<le> 53"
    by (simp only: bitlen_le_iff_power) simp
  then show ?thesis
    by (simp add: round_double_def Let_def)
qed

lemma js_add_exact: "\<bar>a + b\<bar> \<le> 2 ^ 53 \<Longrightarrow> js_add a b = a + b"
  by (simp add: js_add_def round_double_exact)

lemma js_add_2_53: "js_add 9007199254740992 1 = 9007199254740992"
proof -
  have "bitlen (9007199254740993 :: int) = 54"
    using bitlen_twopow_add_eq [of 1 53] by simp
  then show ?thesis
    by (simp add: js_add_def round_double_def Let_def)
qed

section \<open>The paths of processJob\<close>

lemma current_state_maxLength_cases:
  "length segs \<le> limit \<Longrightarrow> current_state_maxLength limit segs = Inr (maxLength segs)"
  "limit < length segs \<Longrightarrow> current_state_maxLength limit segs = Inl RangeError"
  by (auto simp: current_state_maxLength_def maxLength_def)

lemma processJob_fetch_failed:
  "fetchTarget job w = (Inl e, w1) \<Longrightarrow> processJob job w = (Inl (FetchTargetFailed e), w1)"
  by (simp add: processJob_def)

lemma processJob_range_error:
  "fetchTarget job w = (Inr tgt, w1) \<Longrightarrow>
   spread_limit job < length (working_segments (properties tgt)) \<Longrightarrow>
   processJob job w = (Inl RangeError, w1)"
  by (simp add: processJob_def current_state_maxLength_cases)

lemma processJob_done:
  "fetchTarget job w = (Inr tgt, w1) \<Longrightarrow>
   length (working_segments (properties tgt)) \<le> spread_limit job \<Longrightarrow>
   allDone (working_segments (properties tgt)) \<Longrightarrow>
   processJob job w = (Inr [\<lparr>entity_id = target_id tgt, done_flag = True\<rparr>], w1)"
  by (simp add: processJob_def current_state_maxLength_cases)

lemma processJob_tip_failed:
  "fetchTarget job w = (Inr tgt, w1) \<Longrightarrow>
   length (working_segments (properties tgt)) \<le> spread_limit job \<Longrightarrow>
   \<not> allDone (working_segments (properties tgt)) \<Longrightarrow>
   api_GET_tip job (target_id tgt) w1 = (resp, w2) \<Longrightarrow>
   tip_error resp \<noteq> None \<or> tip_data resp = None \<Longrightarrow>
   processJob job w = (Inl (TipFailed (tip_error resp)), w2)"
  by (auto simp: processJob_def current_state_maxLength_cases Let_def
      split: prod.splits option.splits)

lemma processJob_write:
  "fetchTarget job w = (Inr tgt, w1) \<Longrightarrow>
   length (working_segments (properties tgt)) \<le> spread_limit job \<Longrightarrow>
   \<not> allDone (working_segments (properties tgt)) \<Longrightarrow>
   api_GET_tip job (target_id tgt) w1 = (resp, w2) \<Longrightarrow>
   tip_error resp = None \<Longrightarrow> tip_data resp = Some tp \<Longrightarrow>
   processJob job w =
     (case api_PUT job (target_id tgt)
             (update_body tgt tp (fst (split_segments (working_segments (properties tgt))))
                (js_add (case split_count (properties tgt) of None \<Rightarrow> 0 | Some n \<Rightarrow> n) 1)
                (recurseDepth job)) w2 of
        (Some updateError, w3) \<Rightarrow> (Inl (UpdateFailed updateError), w3)
      | (None, w3) \<Rightarrow> (Inr [\<lparr>entity_id = target_id tgt, done_flag = False\<rparr>], w3))"
  by (simp add: processJob_def current_state_maxLength_cases Let_def
      split: prod.splits option.splits)

text \<open>A run that returns outputs has passed line 41.\<close>

lemma processJob_returns_within_limit:
  assumes "fetchTarget job w = (Inr tgt, w1)" and "processJob job w = (Inr outs, w')"
  shows "length (working_segments (properties tgt)) \<le> spread_limit job"
proof (rule ccontr)
  assume "\<not> ?thesis"
  then have "spread_limit job < length (working_segments (properties tgt))" by simp
  from processJob_range_error [OF assms(1) this] assms(2) show False by simp
qed

lemma tip_concurrent_writes:
  "st_tip (concurrent_writes ps st) = st_tip st + length ps"
  unfolding concurrent_writes_def
  by (induction ps arbitrary: st) (simp_all add: store_write_def)

lemma id_concurrent_writes:
  "st_id (concurrent_writes ps st) = st_id st"
  unfolding concurrent_writes_def
  by (induction ps arbitrary: st) (simp_all add: store_write_def)

lemma concurrent_writes_append:
  "concurrent_writes (ps @ qs) st = concurrent_writes qs (concurrent_writes ps st)"
  by (simp add: concurrent_writes_def)

lemma store_job_sel:
  "recurseDepth (store_job d pl) = d"
  "spread_limit (store_job d pl) = max_arguments pl"
  "fetchTarget (store_job d pl) = store_fetchTarget pl"
  "api_GET_tip (store_job d pl) = store_GET_tip pl"
  "api_PUT (store_job d pl) = store_PUT pl"
  by (simp_all add: store_job_def)

lemma split_changes:
  assumes "\<not> allDone segs"
  shows "0 < snd (split_segments segs)"
    and "length segs < length (fst (split_segments segs))"
    and "fst (split_segments segs) \<noteq> segs"
    and "fst (split_segments segs) \<noteq> []"
proof -
  show pos: "0 < snd (split_segments segs)"
    using assms by (rule not_allDone_splits)
  with length_split_segments [of segs]
  show longer: "length segs < length (fst (split_segments segs))"
    by simp
  then show "fst (split_segments segs) \<noteq> segs"
    by auto
  from longer show "fst (split_segments segs) \<noteq> []"
    by auto
qed

lemma working_segments_cases:
  "segments p = Some segs \<Longrightarrow> segs \<noteq> [] \<Longrightarrow> working_segments p = segs"
  "segments p = None \<or> segments p = Some [] \<Longrightarrow> text_prop p = Some t \<Longrightarrow> t \<noteq> [] \<Longrightarrow>
     working_segments p = [t]"
  "segments p = None \<or> segments p = Some [] \<Longrightarrow> text_prop p = None \<or> text_prop p = Some [] \<Longrightarrow>
     working_segments p = []"
  by (auto simp: working_segments_def)

lemma read_segments_differ:
  assumes "\<not> allDone (working_segments p)"
  shows "segments p \<noteq> Some (fst (split_segments (working_segments p)))"
proof
  assume eq: "segments p = Some (fst (split_segments (working_segments p)))"
  have "working_segments p = fst (split_segments (working_segments p))"
    using eq split_changes(4) [OF assms] by (rule working_segments_cases(1))
  with split_changes(3) [OF assms] show False by simp
qed

section \<open>processJob against the record store\<close>

lemma concurrent_writes_Nil: "concurrent_writes [] st = st"
  by (simp add: concurrent_writes_def)

lemma store_fetch_ok:
  "fetch_fault pl = None \<Longrightarrow>
   fetchTarget (store_job d pl) st =
     (Inr \<lparr>target_id = st_id st, properties = st_props st\<rparr>, st)"
  by (simp add: store_job_sel store_fetchTarget_def)

lemma store_tip_failed:
  "tip_fault pl = Some e \<Longrightarrow>
   api_GET_tip (store_job d pl) i st =
     (\<lparr>tip_data = None, tip_error = Some e\<rparr>, concurrent_writes (before_tip pl) st)"
  by (simp add: store_job_sel store_GET_tip_def)

lemma store_tip_ok:
  "tip_fault pl = None \<Longrightarrow>
   api_GET_tip (store_job d pl) (st_id st) st =
     (\<lparr>tip_data = Some \<lparr>tip_cid = st_tip st + length (before_tip pl)\<rparr>, tip_error = None\<rparr>,
      concurrent_writes (before_tip pl) st)"
  by (simp add: store_job_sel store_GET_tip_def Let_def id_concurrent_writes tip_concurrent_writes)

lemma store_put:
  "api_PUT (store_job d pl) (st_id st) body st =
     (case put_fault pl of
        Some e \<Rightarrow> (Some e, concurrent_writes (before_put pl) st)
      | None \<Rightarrow>
          if expect_tip body = st_tip st + length (before_put pl)
          then (None, store_write (put_properties body) (concurrent_writes (before_put pl) st))
          else (Some Conflict, concurrent_writes (before_put pl) st))"
  by (simp add: store_job_sel store_PUT_def Let_def id_concurrent_writes tip_concurrent_writes
      split: option.splits)

text \<open>The runs against the store, path by path.\<close>

lemma store_run_fetch_failed:
  "fetch_fault pl = Some e \<Longrightarrow>
   processJob (store_job d pl) st = (Inl (FetchTargetFailed e), st)"
  by (rule processJob_fetch_failed) (simp add: store_job_sel store_fetchTarget_def)

lemma store_run_range_error:
  "fetch_fault pl = None \<Longrightarrow> max_arguments pl < length (working_segments (st_props st)) \<Longrightarrow>
   processJob (store_job d pl) st = (Inl RangeError, st)"
  by (rule processJob_range_error [OF store_fetch_ok]) (simp_all add: store_job_sel)

lemma store_run_done:
  assumes "fetch_fault pl = None"
    and "length (working_segments (st_props st)) \<le> max_arguments pl"
    and "allDone (working_segments (st_props st))"
  shows "processJob (store_job d pl) st = (Inr [\<lparr>entity_id = st_id st, done_flag = True\<rparr>], st)"
proof -
  let ?tgt = "\<lparr>target_id = st_id st, properties = st_props st\<rparr>"
  have f: "fetchTarget (store_job d pl) st = (Inr ?tgt, st)"
    using assms(1) by (rule store_fetch_ok)
  have l: "length (working_segments (properties ?tgt)) \<le> spread_limit (store_job d pl)"
    using assms(2) by (simp add: store_job_sel)
  have a: "allDone (working_segments (properties ?tgt))"
    using assms(3) by simp
  from processJob_done [OF f l a] show ?thesis by simp
qed

lemma store_run_tip_failed:
  assumes "fetch_fault pl = None"
    and "length (working_segments (st_props st)) \<le> max_arguments pl"
    and "\<not> allDone (working_segments (st_props st))"
    and "tip_fault pl = Some e"
  shows "processJob (store_job d pl) st =
     (Inl (TipFailed (Some e)), concurrent_writes (before_tip pl) st)"
proof -
  let ?tgt = "\<lparr>target_id = st_id st, properties = st_props st\<rparr>"
  have f: "fetchTarget (store_job d pl) st = (Inr ?tgt, st)"
    using assms(1) by (rule store_fetch_ok)
  have l: "length (working_segments (properties ?tgt)) \<le> spread_limit (store_job d pl)"
    using assms(2) by (simp add: store_job_sel)
  have n: "\<not> allDone (working_segments (properties ?tgt))"
    using assms(3) by simp
  from processJob_tip_failed [OF f l n store_tip_failed [OF assms(4)]] show ?thesis
    by simp
qed

lemma store_run_write:
  assumes "fetch_fault pl = None"
    and "length (working_segments (st_props st)) \<le> max_arguments pl"
    and "\<not> allDone (working_segments (st_props st))"
    and "tip_fault pl = None"
  shows "processJob (store_job d pl) st =
     (case put_fault pl of
        Some e \<Rightarrow> (Inl (UpdateFailed e), concurrent_writes (before_tip pl @ before_put pl) st)
      | None \<Rightarrow>
          if before_put pl = [] then
            (Inr [\<lparr>entity_id = st_id st, done_flag = False\<rparr>],
             store_write
               ((st_props st)
                  \<lparr>segments := Some (fst (split_segments (working_segments (st_props st)))),
                   split_count :=
                     Some (js_add (case split_count (st_props st) of None \<Rightarrow> 0 | Some n \<Rightarrow> n) 1),
                   last_split_depth := Some d\<rparr>)
               (concurrent_writes (before_tip pl) st))
          else (Inl (UpdateFailed Conflict),
                concurrent_writes (before_tip pl @ before_put pl) st))"
proof -
  let ?tgt = "\<lparr>target_id = st_id st, properties = st_props st\<rparr>"
  let ?st1 = "concurrent_writes (before_tip pl) st"
  have f: "fetchTarget (store_job d pl) st = (Inr ?tgt, st)"
    using assms(1) by (rule store_fetch_ok)
  have l: "length (working_segments (properties ?tgt)) \<le> spread_limit (store_job d pl)"
    using assms(2) by (simp add: store_job_sel)
  have n: "\<not> allDone (working_segments (properties ?tgt))"
    using assms(3) by simp
  have t: "api_GET_tip (store_job d pl) (target_id ?tgt) st =
      (\<lparr>tip_data = Some \<lparr>tip_cid = st_tip st + length (before_tip pl)\<rparr>, tip_error = None\<rparr>, ?st1)"
    using store_tip_ok [OF assms(4), of d st] by simp
  have i: "target_id ?tgt = st_id ?st1"
    by (simp add: id_concurrent_writes)
  have tip1: "st_tip ?st1 = st_tip st + length (before_tip pl)"
    by (rule tip_concurrent_writes)
  have len: "(0 = length (before_put pl)) = (before_put pl = [])"
    by auto
  have run: "processJob (store_job d pl) st =
     (case api_PUT (store_job d pl) (target_id ?tgt)
             (update_body ?tgt \<lparr>tip_cid = st_tip st + length (before_tip pl)\<rparr>
                (fst (split_segments (working_segments (properties ?tgt))))
                (js_add (case split_count (properties ?tgt) of None \<Rightarrow> 0 | Some n \<Rightarrow> n) 1)
                (recurseDepth (store_job d pl))) ?st1 of
        (Some updateError, w3) \<Rightarrow> (Inl (UpdateFailed updateError), w3)
      | (None, w3) \<Rightarrow> (Inr [\<lparr>entity_id = target_id ?tgt, done_flag = False\<rparr>], w3))"
    by (rule processJob_write [OF f l n t]) simp_all
  show ?thesis
    unfolding run i store_put
    by (simp add: update_body_def tip1 concurrent_writes_append concurrent_writes_Nil len
        store_job_sel id_concurrent_writes split: option.splits)
qed

text \<open>A run that returns outputs on the non-terminal path: what it says of the plan and the store.\<close>

lemma store_run_success:
  assumes "processJob (store_job d pl) st = (Inr outs, st')"
    and "\<not> allDone (working_segments (st_props st))"
  shows "before_put pl = []
     \<and> outs = [\<lparr>entity_id = st_id st, done_flag = False\<rparr>]
     \<and> st' = store_write
          ((st_props st)
             \<lparr>segments := Some (fst (split_segments (working_segments (st_props st)))),
              split_count :=
                Some (js_add (case split_count (st_props st) of None \<Rightarrow> 0 | Some n \<Rightarrow> n) 1),
              last_split_depth := Some d\<rparr>)
          (concurrent_writes (before_tip pl) st)"
proof -
  have f: "fetch_fault pl = None"
  proof (cases "fetch_fault pl")
    case (Some e)
    from store_run_fetch_failed [OF Some, of d st] assms(1) show ?thesis by simp
  qed simp
  have l: "length (working_segments (st_props st)) \<le> max_arguments pl"
  proof (rule ccontr)
    assume "\<not> ?thesis"
    then have "max_arguments pl < length (working_segments (st_props st))" by simp
    from store_run_range_error [OF f this, of d] assms(1) show False by simp
  qed
  have t: "tip_fault pl = None"
  proof (cases "tip_fault pl")
    case (Some e)
    from store_run_tip_failed [OF f l assms(2) Some, of d] assms(1) show ?thesis by simp
  qed simp
  have p: "put_fault pl = None"
  proof (cases "put_fault pl")
    case (Some e)
    from store_run_write [OF f l assms(2) t, of d] assms(1) Some show ?thesis by simp
  qed simp
  have b: "before_put pl = []"
  proof (rule ccontr)
    assume "before_put pl \<noteq> []"
    with store_run_write [OF f l assms(2) t, of d] assms(1) p show False by simp
  qed
  from store_run_write [OF f l assms(2) t, of d] assms(1) p b show ?thesis
    by simp
qed

text \<open>Facts for evaluating the model on the example records.\<close>

lemmas store_calls = store_fetchTarget_def store_GET_tip_def store_PUT_def
lemmas eval_defs = record_A_def record_B_def record_E_def record_M_def record_N_def
  relabelled_def quiet_def
  working_segments_def allDone_def MIN_SEGMENT_LENGTH_def concurrent_writes_def store_write_def
  update_body_def split_segments_def current_state_maxLength_def

section \<open>The claims\<close>

text \<open>
  C1. On the non-terminal path, the split round of \<open>processJob\<close> (lines 59-72) goes
  through the segments once, in their order: a segment longer than 10 is replaced by its
  two contiguous halves, cut at index \<open>floor(length / 2)\<close>, and a segment of length at
  most 10 is kept as it is; \<open>splitsMade\<close> counts the segments longer than 10. The two
  halves of a segment of length \<open>L\<close> put together are the segment; their lengths are
  \<open>floor(L / 2)\<close> and \<open>ceil(L / 2)\<close>, the first never the larger, both \<open>L / 2\<close> when
  \<open>L\<close> is even. A half is not split again in the same round: the result holds each half
  as it was cut, whatever its length.
\<close>

theorem split_round:
  "fst (split_segments segs) =
     concat (map (\<lambda>s. if 10 < length s
                       then [take (length s div 2) s, drop (length s div 2) s] else [s]) segs)
   \<and> snd (split_segments segs) = length (filter (\<lambda>s. 10 < length s) segs)
   \<and> (\<forall>s \<in> set segs. 10 < length s \<longrightarrow>
         take (length s div 2) s @ drop (length s div 2) s = s
       \<and> length (take (length s div 2) s) = length s div 2
       \<and> length (drop (length s div 2) s) = (length s + 1) div 2
       \<and> length (take (length s div 2) s) \<le> length (drop (length s div 2) s)
       \<and> (even (length s) \<longrightarrow> length (drop (length s div 2) s) = length s div 2))"
proof -
  have segs: "fst (split_segments segs) =
     concat (map (\<lambda>s. if 10 < length s
                       then [take (length s div 2) s, drop (length s div 2) s] else [s]) segs)"
    by (simp add: split_segments_eq MIN_SEGMENT_LENGTH_def)
  have count: "snd (split_segments segs) = length (filter (\<lambda>s. 10 < length s) segs)"
    by (simp add: split_segments_eq MIN_SEGMENT_LENGTH_def)
  have halves: "take (length s div 2) s @ drop (length s div 2) s = s
       \<and> length (take (length s div 2) s) = length s div 2
       \<and> length (drop (length s div 2) s) = (length s + 1) div 2
       \<and> length (take (length s div 2) s) \<le> length (drop (length s div 2) s)
       \<and> (even (length s) \<longrightarrow> length (drop (length s div 2) s) = length s div 2)"
    for s :: jsstring
  proof -
    have "length s div 2 \<le> length s" by simp
    then have "length (take (length s div 2) s) = length s div 2" by simp
    moreover have "length (drop (length s div 2) s) = (length s + 1) div 2"
      by simp
    moreover have "length s div 2 \<le> (length s + 1) div 2" by linarith
    moreover have "even (length s) \<longrightarrow> (length s + 1) div 2 = length s div 2"
      by presburger
    ultimately show ?thesis by simp
  qed
  from segs count halves show ?thesis by blast
qed

text \<open>
  The round on segments of lengths 30, 5 and 11: two splits, into 15 and 15 and into 5 and
  6; the halves of length 15 stay whole in this round.
\<close>

theorem split_round_witness:
  "split_segments [replicate 30 0x41, replicate 5 0x42, replicate 11 0x43] =
     ([replicate 15 0x41, replicate 15 0x41, replicate 5 0x42, replicate 5 0x43, replicate 6 0x43], 2)
   \<and> 10 < length (replicate 11 (0x43 :: 16 word))
   \<and> length (take (11 div 2) (replicate 11 (0x43 :: 16 word))) = 5
   \<and> length (drop (11 div 2) (replicate 11 (0x43 :: 16 word))) = 6
   \<and> length (drop (30 div 2) (replicate 30 (0x41 :: 16 word))) = 15"
proof -
  let ?segs = "[replicate 30 0x41, replicate 5 0x42, replicate 11 (0x43 :: 16 word)]"
  note r = split_round [of ?segs]
  from r have "fst (split_segments ?segs) =
      [replicate 15 0x41, replicate 15 0x41, replicate 5 0x42, replicate 5 0x43, replicate 6 0x43]"
    by simp
  moreover from r have "snd (split_segments ?segs) = 2"
    by simp
  moreover from r have "length (drop (11 div 2) (replicate 11 (0x43 :: 16 word))) = 6 
       \<and> length (take (11 div 2) (replicate 11 (0x43 :: 16 word))) = 5
       \<and> length (drop (30 div 2) (replicate 30 (0x41 :: 16 word))) = 15"
    by simp
  ultimately show ?thesis
    by (simp add: prod_eq_iff)
qed

text \<open>
  C2. For every sequence of segments, the split round iterated
  \<open>ceil(log2(maxLength / 10))\<close> times, or any number of times more, gives a sequence in
  which every segment has length at most 10, so the all-done check holds, and which one
  more round leaves as it is, with no split made. (Where that logarithm is negative or
  the sequence is empty the number of rounds is 0.)
\<close>

theorem rounds_reach_fixed_point:
  "allDone (((\<lambda>S. fst (split_segments S)) ^^ (nat \<lceil>log 2 (real (maxLength segs) / 10)\<rceil> + j)) segs)
   \<and> split_segments
        (((\<lambda>S. fst (split_segments S)) ^^ (nat \<lceil>log 2 (real (maxLength segs) / 10)\<rceil> + j)) segs) =
      (((\<lambda>S. fst (split_segments S)) ^^ (nat \<lceil>log 2 (real (maxLength segs) / 10)\<rceil> + j)) segs, 0)"
proof -
  define N where "N = nat \<lceil>log 2 (real (maxLength segs) / 10)\<rceil>"
  let ?round = "\<lambda>S. fst (split_segments S)"
  have "\<forall>s \<in> set segs. length s \<le> MIN_SEGMENT_LENGTH * 2 ^ N"
  proof
    fix s assume "s \<in> set segs"
    then have "length s \<le> maxLength segs" by (rule maxLength_ge)
    also have "\<dots> \<le> MIN_SEGMENT_LENGTH * 2 ^ N"
      unfolding N_def by (rule log_bound)
    finally show "length s \<le> MIN_SEGMENT_LENGTH * 2 ^ N" .
  qed
  then have done_N: "allDone ((?round ^^ N) segs)"
    by (rule rounds_bound)
  have "(?round ^^ (N + j)) segs = (?round ^^ j) ((?round ^^ N) segs)"
    by (subst add.commute) (simp add: funpow_add)
  also have "\<dots> = (?round ^^ N) segs"
    using done_N by (rule rounds_stay)
  finally have eq: "(?round ^^ (N + j)) segs = (?round ^^ N) segs" .
  show ?thesis
    unfolding N_def [symmetric] eq using done_N by (simp add: allDone_fixed)
qed

text \<open>
  The text of 80 times \<open>A\<close>: the bound is 3 rounds; after 3 rounds there are 8 segments
  of length 10 and the check holds, after 2 rounds it does not yet.
\<close>

theorem rounds_reach_fixed_point_witness:
  "nat \<lceil>log 2 (real (maxLength [replicate 80 0x41]) / 10)\<rceil> = 3
   \<and> ((\<lambda>S. fst (split_segments S)) ^^ 3) [replicate 80 0x41] =
       [replicate 10 0x41, replicate 10 0x41, replicate 10 0x41, replicate 10 0x41,
        replicate 10 0x41, replicate 10 0x41, replicate 10 0x41, replicate 10 0x41]
   \<and> allDone (((\<lambda>S. fst (split_segments S)) ^^ 3) [replicate 80 0x41])
   \<and> \<not> allDone (((\<lambda>S. fst (split_segments S)) ^^ 2) [replicate 80 0x41])"
proof -
  let ?S = "[replicate 80 0x41] :: jsstring list"
  let ?round = "\<lambda>S. fst (split_segments S)"
  let ?a = "replicate 10 0x41 :: jsstring"
  let ?b = "replicate 20 0x41 :: jsstring"
  have "log 2 (2 ^ 3) = real 3"
    by (rule log_pow_cancel) simp_all
  then have "log 2 8 = 3" by simp
  then have N: "nat \<lceil>log 2 (real (maxLength ?S) / 10)\<rceil> = 3"
    by (simp add: maxLength_def)
  have r1: "?round ?S = [replicate 40 0x41, replicate 40 0x41]"
    by (simp add: split_segments_eq MIN_SEGMENT_LENGTH_def)
  have r2: "?round [replicate 40 0x41, replicate 40 0x41] = [?b, ?b, ?b, ?b]"
    by (simp add: split_segments_eq MIN_SEGMENT_LENGTH_def)
  have r3: "?round [?b, ?b, ?b, ?b] = [?a, ?a, ?a, ?a, ?a, ?a, ?a, ?a]"
    by (simp add: split_segments_eq MIN_SEGMENT_LENGTH_def)
  have two: "(?round ^^ 2) ?S = [?b, ?b, ?b, ?b]"
    by (simp only: numeral_2_eq_2 funpow.simps o_apply id_apply r1 r2)
  have three: "(?round ^^ 3) ?S = [?a, ?a, ?a, ?a, ?a, ?a, ?a, ?a]"
    by (simp only: numeral_3_eq_3 funpow.simps o_apply id_apply r1 r2 r3)
  have notyet: "\<not> allDone ((?round ^^ 2) ?S)"
    unfolding two by (simp add: allDone_def MIN_SEGMENT_LENGTH_def)
  from rounds_reach_fixed_point [of ?S 0] have "allDone ((?round ^^ 3) ?S)"
    unfolding N by simp
  with N three notyet show ?thesis
    by blast
qed

text \<open>
  C3. The claim: for every record whose working segments all have length at most 10,
  \<open>processJob\<close> writes nothing and returns exactly
  \<open>[{entity_id: target.id, done: true}]\<close>. The code does not do this on a record with
  more segments than the engine accepts arguments: the text of 1310720 times \<open>A\<close> has,
  after 17 rounds, 131072 segments of length 10, all done; invoked on it, \<open>processJob\<close>
  throws \<open>RangeError\<close> at line 41, where the maximum length for the log is computed by
  spreading the lengths into \<open>Math.max\<close>, before it reaches the all-done check. Nothing
  is written, and no \<open>done: true\<close> is returned.
\<close>

theorem terminal_many_segments_throws:
  "allDone (working_segments (st_props record_M))
   \<and> length (working_segments (st_props record_M)) = 131072
   \<and> max_arguments quiet = 125000
   \<and> processJob (store_job 0 quiet) record_M = (Inl RangeError, record_M)"
proof -
  have ws: "working_segments (st_props record_M) = replicate 131072 (replicate 10 0x41)"
    by (simp add: record_M_def working_segments_def)
  have a: "allDone (working_segments (st_props record_M))"
    unfolding ws by (simp add: allDone_def MIN_SEGMENT_LENGTH_def list_all_iff)
  have l: "length (working_segments (st_props record_M)) = 131072"
    unfolding ws by simp
  have q: "max_arguments quiet = 125000" "fetch_fault quiet = None"
    by (simp_all add: quiet_def)
  have "max_arguments quiet < length (working_segments (st_props record_M))"
    unfolding l q by simp
  from store_run_range_error [OF q(2) this] a l q(1) show ?thesis
    by simp
qed

text \<open>
  What the terminal path does within the limit. Against the store, for every record whose
  working segments all have length at most 10 and are no more than the engine accepts
  arguments (and that can be fetched), \<open>processJob\<close> returns exactly
  \<open>[{entity_id: target.id, done: true}]\<close> and leaves the store as it is, revision
  included: it wrote nothing. It returns before it reads the tip or writes: the result is
  the same whatever the client's \<open>GET tip\<close> and \<open>PUT\<close> would do. Invoked again on the
  record it left, at any depth, it returns the same and again leaves the store as it is.
\<close>

lemma terminal_within_limit:
  assumes "allDone (working_segments (st_props st))"
    and "length (working_segments (st_props st)) \<le> max_arguments pl"
    and "fetch_fault pl = None"
    and "length (working_segments (st_props st)) \<le> max_arguments pl'"
    and "fetch_fault pl' = None"
  shows "processJob (store_job d pl) st = (Inr [\<lparr>entity_id = st_id st, done_flag = True\<rparr>], st)
     \<and> processJob ((store_job d pl)\<lparr>api_GET_tip := g, api_PUT := p\<rparr>) st =
         (Inr [\<lparr>entity_id = st_id st, done_flag = True\<rparr>], st)
     \<and> processJob (store_job d' pl') (snd (processJob (store_job d pl) st)) =
         (Inr [\<lparr>entity_id = st_id st, done_flag = True\<rparr>], st)"
proof -
  let ?tgt = "\<lparr>target_id = st_id st, properties = st_props st\<rparr>"
  have "fetchTarget ((store_job d pl)\<lparr>api_GET_tip := g, api_PUT := p\<rparr>) st = (Inr ?tgt, st)"
    using assms(3) by (simp add: store_job_sel store_fetchTarget_def)
  moreover have "length (working_segments (properties ?tgt)) \<le>
      spread_limit ((store_job d pl)\<lparr>api_GET_tip := g, api_PUT := p\<rparr>)"
    using assms(2) by (simp add: store_job_sel)
  moreover have "allDone (working_segments (properties ?tgt))"
    using assms(1) by simp
  ultimately have "processJob ((store_job d pl)\<lparr>api_GET_tip := g, api_PUT := p\<rparr>) st =
      (Inr [\<lparr>entity_id = target_id ?tgt, done_flag = True\<rparr>], st)"
    by (rule processJob_done)
  with store_run_done [OF assms(3) assms(2) assms(1), of d]
    store_run_done [OF assms(5) assms(4) assms(1), of d']
  show ?thesis by simp
qed

lemma terminal_within_limit_SMALL:
  "processJob (store_job 0 quiet) record_B =
       (Inr [\<lparr>entity_id = ''entity_B'', done_flag = True\<rparr>], record_B)
   \<and> processJob (store_job 1 quiet) (snd (processJob (store_job 0 quiet) record_B)) =
       (Inr [\<lparr>entity_id = ''entity_B'', done_flag = True\<rparr>], record_B)"
proof -
  have a: "allDone (working_segments (st_props record_B))"
    by (simp add: eval_defs)
  have l: "length (working_segments (st_props record_B)) \<le> max_arguments quiet"
    by (simp add: eval_defs)
  have f: "fetch_fault quiet = None"
    by (simp add: quiet_def)
  have i: "st_id record_B = ''entity_B''"
    by (simp add: record_B_def)
  note run = terminal_within_limit [OF a l f l f, where d = 0 and d' = 1
      and g = "store_GET_tip quiet" and p = "store_PUT quiet", unfolded i]
  from run show ?thesis
    by blast
qed

text \<open>
  C4, as stated, fails on the count. On a record whose \<open>split_count\<close> is \<open>2^53\<close> the
  write carries \<open>split_count = 2^53\<close>: the sum \<open>2^53 + 1\<close> is computed on JavaScript
  numbers, and the nearest double is \<open>2^53\<close>. So the count written is not the previous
  count plus 1.
\<close>

theorem split_count_at_2_53:
  "split_count (st_props record_N) = Some 9007199254740992
   \<and> processJob (store_job 0 quiet) record_N =
     (Inr [\<lparr>entity_id = ''entity_N'', done_flag = False\<rparr>],
      \<lparr>st_id = ''entity_N'',
       st_props = \<lparr>text_prop = None,
                   segments = Some [replicate 6 0x41, replicate 6 0x41],
                   split_count = Some 9007199254740992, last_split_depth = Some 0,
                   extra = Map.empty\<rparr>,
       st_tip = 1\<rparr>)"
  by (simp add: processJob_def store_job_sel store_calls eval_defs js_add_2_53)

text \<open>
  C4, amended. For every job, when the fetched target has a working segment longer than
  10, the value logged at line 41 has been computed (the segments are no more than the
  engine accepts arguments) and the tip is then read (after the target, from the state of
  the world the fetch left), the outcome of \<open>processJob\<close> is that of one \<open>PUT\<close>, made in
  the state the tip read left: its \<open>expect_tip\<close> is the \<open>cid\<close> of that tip, its
  properties are those of the target with \<open>segments\<close> set to the split sequence,
  \<open>split_count\<close> to the sum, on JavaScript numbers, of the previous count (0 when absent)
  and 1, and \<open>last_split_depth\<close> to the job's recursion depth. That sum is the previous
  count plus 1 whenever this is at most \<open>2^53\<close> in magnitude. When the write succeeds the
  result is exactly \<open>[{entity_id: target.id, done: false}]\<close>.
\<close>

theorem non_terminal_write:
  assumes "fetchTarget job w = (Inr tgt, w1)"
    and "length (working_segments (properties tgt)) \<le> spread_limit job"
    and "\<not> allDone (working_segments (properties tgt))"
    and "api_GET_tip job (target_id tgt) w1 = (\<lparr>tip_data = Some tp, tip_error = None\<rparr>, w2)"
  shows "processJob job w =
     (case api_PUT job (target_id tgt)
             \<lparr>expect_tip = tip_cid tp,
              put_properties = (properties tgt)
                \<lparr>segments := Some (fst (split_segments (working_segments (properties tgt)))),
                 split_count :=
                   Some (js_add (case split_count (properties tgt) of None \<Rightarrow> 0 | Some n \<Rightarrow> n) 1),
                 last_split_depth := Some (recurseDepth job)\<rparr>\<rparr> w2 of
        (None, w3) \<Rightarrow> (Inr [\<lparr>entity_id = target_id tgt, done_flag = False\<rparr>], w3)
      | (Some e, w3) \<Rightarrow> (Inl (UpdateFailed e), w3))
   \<and> (\<bar>(case split_count (properties tgt) of None \<Rightarrow> 0 | Some n \<Rightarrow> n) + 1\<bar> \<le> 2 ^ 53 \<longrightarrow>
        js_add (case split_count (properties tgt) of None \<Rightarrow> 0 | Some n \<Rightarrow> n) 1 =
        (case split_count (properties tgt) of None \<Rightarrow> 0 | Some n \<Rightarrow> n) + 1)"
proof -
  have "processJob job w =
     (case api_PUT job (target_id tgt)
             \<lparr>expect_tip = tip_cid tp,
              put_properties = (properties tgt)
                \<lparr>segments := Some (fst (split_segments (working_segments (properties tgt)))),
                 split_count :=
                   Some (js_add (case split_count (properties tgt) of None \<Rightarrow> 0 | Some n \<Rightarrow> n) 1),
                 last_split_depth := Some (recurseDepth job)\<rparr>\<rparr> w2 of
        (None, w3) \<Rightarrow> (Inr [\<lparr>entity_id = target_id tgt, done_flag = False\<rparr>], w3)
      | (Some e, w3) \<Rightarrow> (Inl (UpdateFailed e), w3))"
    using processJob_write [OF assms(1) assms(2) assms(3) assms(4), of tp]
    by (simp add: update_body_def split: prod.splits option.splits)
  then show ?thesis
    by (simp add: js_add_exact)
qed

text \<open>
  The first invocation on the record with 80 times \<open>A\<close>: two segments of 40,
  \<open>split_count\<close> 1, depth 0, the label kept, and a new revision.
\<close>

theorem non_terminal_write_witness:
  "fetchTarget (store_job 0 quiet) record_A =
     (Inr \<lparr>target_id = ''entity_A'', properties = st_props record_A\<rparr>, record_A)
   \<and> length (working_segments (st_props record_A)) \<le> spread_limit (store_job 0 quiet)
   \<and> \<not> allDone (working_segments (st_props record_A))
   \<and> api_GET_tip (store_job 0 quiet) ''entity_A'' record_A =
       (\<lparr>tip_data = Some \<lparr>tip_cid = 0\<rparr>, tip_error = None\<rparr>, record_A)
   \<and> processJob (store_job 0 quiet) record_A =
       (Inr [\<lparr>entity_id = ''entity_A'', done_flag = False\<rparr>],
        \<lparr>st_id = ''entity_A'',
         st_props = \<lparr>text_prop = Some (replicate 80 0x41),
                     segments = Some [replicate 40 0x41, replicate 40 0x41],
                     split_count = Some 1, last_split_depth = Some 0,
                     extra = [''label'' \<mapsto> JStr [0x52, 0x54]]\<rparr>,
         st_tip = 1\<rparr>)"
proof -
  let ?tgt = "\<lparr>target_id = ''entity_A'', properties = st_props record_A\<rparr>"
  have f: "fetchTarget (store_job 0 quiet) record_A = (Inr ?tgt, record_A)"
    by (simp add: store_job_sel store_calls eval_defs js_add_exact)
  have l: "length (working_segments (properties ?tgt)) \<le> spread_limit (store_job 0 quiet)"
    by (simp add: store_job_sel eval_defs)
  have n: "\<not> allDone (working_segments (properties ?tgt))"
    by (simp add: eval_defs)
  have t: "api_GET_tip (store_job 0 quiet) (target_id ?tgt) record_A =
      (\<lparr>tip_data = Some \<lparr>tip_cid = 0\<rparr>, tip_error = None\<rparr>, record_A)"
    by (simp add: store_job_sel store_calls eval_defs js_add_exact)
  have small: "\<bar>(case split_count (properties ?tgt) of None \<Rightarrow> 0 | Some n \<Rightarrow> n) + 1\<bar> \<le> 2 ^ 53"
    by (simp add: record_A_def)
  from non_terminal_write [OF f l n t] small f l n t show ?thesis
    by (simp add: store_job_sel store_calls eval_defs js_add_exact)
qed

text \<open>
  C5. For every job and fetched target, when \<open>processJob\<close> returns outputs it returns
  one output for the target, and its \<open>done\<close> is true exactly when a split round leaves
  the working segments unchanged. When \<open>done\<close> is false, at least one split was made, the
  new sequence is strictly longer than the working sequence (so differs from it), and a
  \<open>PUT\<close> carrying the new sequence as \<open>segments\<close> succeeded and left the final state of
  the world; that sequence also differs from the \<open>segments\<close> property that was read.
\<close>

theorem done_iff_unchanged:
  assumes "fetchTarget job w = (Inr tgt, w1)"
    and "processJob job w = (Inr outs, w')"
  shows "\<exists>out. outs = [out] \<and> entity_id out = target_id tgt
     \<and> (done_flag out \<longleftrightarrow>
          fst (split_segments (working_segments (properties tgt))) =
          working_segments (properties tgt))
     \<and> (\<not> done_flag out \<longrightarrow>
          0 < snd (split_segments (working_segments (properties tgt)))
        \<and> length (working_segments (properties tgt)) <
            length (fst (split_segments (working_segments (properties tgt))))
        \<and> (\<exists>body w2. api_PUT job (target_id tgt) body w2 = (None, w')
              \<and> segments (put_properties body) =
                  Some (fst (split_segments (working_segments (properties tgt))))
              \<and> segments (put_properties body) \<noteq> segments (properties tgt)))"
proof (cases "allDone (working_segments (properties tgt))")
  case True
  have l: "length (working_segments (properties tgt)) \<le> spread_limit job"
    using assms by (rule processJob_returns_within_limit)
  from processJob_done [OF assms(1) l True] assms(2)
  have "outs = [\<lparr>entity_id = target_id tgt, done_flag = True\<rparr>]" by simp
  with allDone_fixed [OF True] show ?thesis by simp
next
  case False
  have l: "length (working_segments (properties tgt)) \<le> spread_limit job"
    using assms by (rule processJob_returns_within_limit)
  let ?ws = "working_segments (properties tgt)"
  obtain resp w2 where tip: "api_GET_tip job (target_id tgt) w1 = (resp, w2)"
    by (cases "api_GET_tip job (target_id tgt) w1")
  have ok: "tip_error resp = None \<and> tip_data resp \<noteq> None"
  proof (rule ccontr)
    assume "\<not> ?thesis"
    then have "tip_error resp \<noteq> None \<or> tip_data resp = None" by simp
    from processJob_tip_failed [OF assms(1) l False tip this] assms(2) show False by simp
  qed
  then obtain tp where tp: "tip_data resp = Some tp" by blast
  let ?body = "update_body tgt tp (fst (split_segments ?ws))
      (js_add (case split_count (properties tgt) of None \<Rightarrow> 0 | Some n \<Rightarrow> n) 1) (recurseDepth job)"
  obtain r w3 where call: "api_PUT job (target_id tgt) ?body w2 = (r, w3)"
    by (cases "api_PUT job (target_id tgt) ?body w2")
  from ok have noerr: "tip_error resp = None" by simp
  have run: "processJob job w =
      (case r of Some updateError \<Rightarrow> (Inl (UpdateFailed updateError), w3)
       | None \<Rightarrow> (Inr [\<lparr>entity_id = target_id tgt, done_flag = False\<rparr>], w3))"
    unfolding processJob_write [OF assms(1) l False tip noerr tp] call by simp
  have r: "r = None"
  proof (cases r)
    case (Some e)
    with run assms(2) show ?thesis by simp
  qed simp
  from run assms(2) r have w3: "w3 = w'"
    and outs: "outs = [\<lparr>entity_id = target_id tgt, done_flag = False\<rparr>]"
    by simp_all
  have put: "api_PUT job (target_id tgt) ?body w2 = (None, w')"
    using call r w3 by simp
  have seg: "segments (put_properties ?body) = Some (fst (split_segments ?ws))"
    by (simp add: update_body_def)
  have diff: "segments (put_properties ?body) \<noteq> segments (properties tgt)"
    using read_segments_differ [OF False] by (simp add: seg)
  have written: "\<exists>body w2. api_PUT job (target_id tgt) body w2 = (None, w')
              \<and> segments (put_properties body) = Some (fst (split_segments ?ws))
              \<and> segments (put_properties body) \<noteq> segments (properties tgt)"
    using put seg diff by blast
  let ?out = "\<lparr>entity_id = target_id tgt, done_flag = False\<rparr>"
  have "outs = [?out]" by (rule outs)
  moreover have "entity_id ?out = target_id tgt" by simp
  moreover have "done_flag ?out \<longleftrightarrow> fst (split_segments ?ws) = ?ws"
    using split_changes(3) [OF False] by simp
  moreover have "\<not> done_flag ?out \<longrightarrow>
          0 < snd (split_segments ?ws)
        \<and> length ?ws < length (fst (split_segments ?ws))
        \<and> (\<exists>body w2. api_PUT job (target_id tgt) body w2 = (None, w')
              \<and> segments (put_properties body) = Some (fst (split_segments ?ws))
              \<and> segments (put_properties body) \<noteq> segments (properties tgt))"
    using split_changes(1,2) [OF False] written by blast
  ultimately show ?thesis by blast
qed

text \<open>
  On the 80 times \<open>A\<close> the result is \<open>done = false\<close> and the round changes the
  sequence; on \<open>SMALL\<close> the result is \<open>done = true\<close> and the round changes nothing.
\<close>

theorem done_iff_unchanged_witness:
  "fetchTarget (store_job 0 quiet) record_A =
     (Inr \<lparr>target_id = ''entity_A'', properties = st_props record_A\<rparr>, record_A)
   \<and> fst (processJob (store_job 0 quiet) record_A) =
       Inr [\<lparr>entity_id = ''entity_A'', done_flag = False\<rparr>]
   \<and> fst (split_segments (working_segments (st_props record_A))) \<noteq>
       working_segments (st_props record_A)
   \<and> 0 < snd (split_segments (working_segments (st_props record_A)))
   \<and> fetchTarget (store_job 0 quiet) record_B =
       (Inr \<lparr>target_id = ''entity_B'', properties = st_props record_B\<rparr>, record_B)
   \<and> fst (processJob (store_job 0 quiet) record_B) =
       Inr [\<lparr>entity_id = ''entity_B'', done_flag = True\<rparr>]
   \<and> fst (split_segments (working_segments (st_props record_B))) =
       working_segments (st_props record_B)"
proof -
  let ?tA = "\<lparr>target_id = ''entity_A'', properties = st_props record_A\<rparr>"
  let ?tB = "\<lparr>target_id = ''entity_B'', properties = st_props record_B\<rparr>"
  have fA: "fetchTarget (store_job 0 quiet) record_A = (Inr ?tA, record_A)"
    by (simp add: store_job_sel store_calls eval_defs js_add_exact)
  have fB: "fetchTarget (store_job 0 quiet) record_B = (Inr ?tB, record_B)"
    by (simp add: store_job_sel store_calls eval_defs js_add_exact)
  obtain wA where rA: "processJob (store_job 0 quiet) record_A =
      (Inr [\<lparr>entity_id = ''entity_A'', done_flag = False\<rparr>], wA)"
    by (simp add: processJob_def store_job_sel store_calls eval_defs js_add_exact)
  obtain wB where rB: "processJob (store_job 0 quiet) record_B =
      (Inr [\<lparr>entity_id = ''entity_B'', done_flag = True\<rparr>], wB)"
    by (simp add: processJob_def store_job_sel store_calls eval_defs js_add_exact)
  from done_iff_unchanged [OF fA rA]
  have A: "fst (split_segments (working_segments (st_props record_A))) \<noteq>
       working_segments (st_props record_A)
     \<and> 0 < snd (split_segments (working_segments (st_props record_A)))"
    by auto
  from done_iff_unchanged [OF fB rB]
  have B: "fst (split_segments (working_segments (st_props record_B))) =
       working_segments (st_props record_B)"
    by auto
  from fA fB rA rB A B show ?thesis by simp
qed

text \<open>
  C6. The working segment sequence is the \<open>segments\<close> property when it is present and
  not empty; otherwise the one-element sequence of \<open>text\<close> when that is a non-empty
  string; otherwise the empty sequence. On the empty sequence the all-done check holds
  and the loop makes no split; and for every job whose fetched target has an empty working
  sequence, \<open>processJob\<close> returns \<open>done = true\<close> in the state the fetch left, writing
  nothing.
\<close>

theorem working_sequence:
  "(segments p = Some segs \<and> segs \<noteq> [] \<longrightarrow> working_segments p = segs)
   \<and> ((segments p = None \<or> segments p = Some []) \<and> text_prop p = Some t \<and> t \<noteq> [] \<longrightarrow>
        working_segments p = [t])
   \<and> ((segments p = None \<or> segments p = Some []) \<and> (text_prop p = None \<or> text_prop p = Some []) \<longrightarrow>
        working_segments p = [])
   \<and> allDone []
   \<and> split_segments [] = ([], 0)
   \<and> (fetchTarget job w = (Inr tgt, w1) \<and> working_segments (properties tgt) = [] \<longrightarrow>
        processJob job w = (Inr [\<lparr>entity_id = target_id tgt, done_flag = True\<rparr>], w1))"
proof -
  have "processJob job w = (Inr [\<lparr>entity_id = target_id tgt, done_flag = True\<rparr>], w1)"
    if "fetchTarget job w = (Inr tgt, w1)" and "working_segments (properties tgt) = []"
    using that(1) by (rule processJob_done) (simp_all add: that(2) allDone_Nil)
  then show ?thesis
    using working_segments_cases [of p] allDone_Nil split_segments_Nil by blast
qed

text \<open>
  Each case on a record: segments present; text only; empty segments with a text; neither;
  an empty text; and the invocation on the record with neither.
\<close>

theorem working_sequence_witness:
  "working_segments ((st_props record_E)\<lparr>segments := Some [[0x61], [0x62]]\<rparr>) = [[0x61], [0x62]]
   \<and> working_segments (st_props record_B) = [[0x53, 0x4D, 0x41, 0x4C, 0x4C]]
   \<and> working_segments ((st_props record_B)\<lparr>segments := Some []\<rparr>) = [[0x53, 0x4D, 0x41, 0x4C, 0x4C]]
   \<and> working_segments (st_props record_E) = []
   \<and> working_segments ((st_props record_E)\<lparr>text_prop := Some []\<rparr>) = []
   \<and> processJob (store_job 0 quiet) record_E =
       (Inr [\<lparr>entity_id = ''entity_E'', done_flag = True\<rparr>], record_E)"
proof -
  let ?p1 = "(st_props record_E)\<lparr>segments := Some [[0x61], [0x62]]\<rparr>"
  let ?p3 = "(st_props record_B)\<lparr>segments := Some []\<rparr>"
  let ?p5 = "(st_props record_E)\<lparr>text_prop := Some []\<rparr>"
  let ?tE = "\<lparr>target_id = ''entity_E'', properties = st_props record_E\<rparr>"
  let ?small = "[0x53, 0x4D, 0x41, 0x4C, 0x4C] :: jsstring"
  note inst = working_sequence [where job = "store_job 0 quiet" and w = record_E and tgt = ?tE
      and ?w1.0 = record_E]
  have h1: "segments ?p1 = Some [[0x61], [0x62]] \<and> [[0x61], [0x62 :: 16 word]] \<noteq> []"
    by simp
  have c1: "working_segments ?p1 = [[0x61], [0x62]]"
    by (rule inst [where p = ?p1 and segs = "[[0x61], [0x62]]" and t = "[]", THEN conjunct1, THEN mp, OF h1])
  have h2: "(segments (st_props record_B) = None \<or> segments (st_props record_B) = Some [])
      \<and> text_prop (st_props record_B) = Some ?small \<and> ?small \<noteq> []"
    by (simp add: record_B_def)
  have c2: "working_segments (st_props record_B) = [?small]"
    by (rule inst [where p = "st_props record_B" and segs = "[]" and t = ?small, THEN conjunct2, THEN conjunct1, THEN mp, OF h2])
  have h3: "(segments ?p3 = None \<or> segments ?p3 = Some [])
      \<and> text_prop ?p3 = Some ?small \<and> ?small \<noteq> []"
    by (simp add: record_B_def)
  have c3: "working_segments ?p3 = [?small]"
    by (rule inst [where p = ?p3 and segs = "[]" and t = ?small, THEN conjunct2, THEN conjunct1, THEN mp, OF h3])
  have h4: "(segments (st_props record_E) = None \<or> segments (st_props record_E) = Some [])
      \<and> (text_prop (st_props record_E) = None \<or> text_prop (st_props record_E) = Some [])"
    by (simp add: record_E_def)
  have c4: "working_segments (st_props record_E) = []"
    by (rule inst [where p = "st_props record_E" and segs = "[]" and t = "[]", THEN conjunct2, THEN conjunct2, THEN conjunct1, THEN mp, OF h4])
  have h5: "(segments ?p5 = None \<or> segments ?p5 = Some [])
      \<and> (text_prop ?p5 = None \<or> text_prop ?p5 = Some [])"
    by (simp add: record_E_def)
  have c5: "working_segments ?p5 = []"
    by (rule inst [where p = ?p5 and segs = "[]" and t = "[]", THEN conjunct2, THEN conjunct2, THEN conjunct1, THEN mp, OF h5])
  have h6: "fetchTarget (store_job 0 quiet) record_E = (Inr ?tE, record_E)
      \<and> working_segments (properties ?tE) = []"
    using c4 by (simp add: store_job_sel store_calls quiet_def record_E_def)
  have c6: "processJob (store_job 0 quiet) record_E =
      (Inr [\<lparr>entity_id = target_id ?tE, done_flag = True\<rparr>], record_E)"
    by (rule inst [where p = "st_props record_E" and segs = "[]" and t = "[]", THEN conjunct2, THEN conjunct2, THEN conjunct2, THEN conjunct2, THEN conjunct2, THEN mp, OF h6])
  from c1 c2 c3 c4 c5 c6 show ?thesis by simp
qed

text \<open>
  C7. For every job, on the non-terminal path: when the tip response carries an error or no
  data, \<open>processJob\<close> throws (no output is produced) in the state the tip read left, so
  without a \<open>PUT\<close>; and when the \<open>PUT\<close> reports an error, \<open>processJob\<close> throws that
  error in the state the \<open>PUT\<close> left. (When the segments are more than the engine accepts
  arguments it has thrown before either call, at line 41, in the state the fetch left.)
  Against the store: when the tip read fails, or the write fails or is rejected because
  another writer came between the tip read and the write, the invocation throws, and the
  store is left as the other writers alone made it (as it was, when there is none, or
  when the invocation threw before its calls): the invocation changed neither
  \<open>segments\<close> nor \<open>split_count\<close> nor \<open>last_split_depth\<close>.
\<close>

theorem failures_raise:
  "(fetchTarget job w = (Inr tgt, w1) \<and> \<not> allDone (working_segments (properties tgt))
      \<and> api_GET_tip job (target_id tgt) w1 = (resp, w2)
      \<and> (tip_error resp \<noteq> None \<or> tip_data resp = None) \<longrightarrow>
    processJob job w =
      (if spread_limit job < length (working_segments (properties tgt))
       then (Inl RangeError, w1)
       else (Inl (TipFailed (tip_error resp)), w2)))
   \<and> (fetchTarget job w = (Inr tgt, w1) \<and> \<not> allDone (working_segments (properties tgt))
      \<and> api_GET_tip job (target_id tgt) w1 = (resp, w2)
      \<and> tip_error resp = None \<and> tip_data resp = Some tp
      \<and> api_PUT job (target_id tgt)
           (update_body tgt tp (fst (split_segments (working_segments (properties tgt))))
              (js_add (case split_count (properties tgt) of None \<Rightarrow> 0 | Some n \<Rightarrow> n) 1)
              (recurseDepth job)) w2 = (Some e, w3) \<longrightarrow>
    processJob job w =
      (if spread_limit job < length (working_segments (properties tgt))
       then (Inl RangeError, w1)
       else (Inl (UpdateFailed e), w3)))
   \<and> (fetch_fault pl = None \<and> \<not> allDone (working_segments (st_props st))
      \<and> (tip_fault pl \<noteq> None \<or> put_fault pl \<noteq> None \<or> before_put pl \<noteq> []) \<longrightarrow>
    (\<exists>err. fst (processJob (store_job d pl) st) = Inl err)
    \<and> snd (processJob (store_job d pl) st) =
        (if max_arguments pl < length (working_segments (st_props st)) then st
         else concurrent_writes
                (before_tip pl @ (if tip_fault pl = None then before_put pl else [])) st))"
proof -
  have tip_case: "processJob job w =
      (if spread_limit job < length (working_segments (properties tgt))
       then (Inl RangeError, w1)
       else (Inl (TipFailed (tip_error resp)), w2))"
    if a: "fetchTarget job w = (Inr tgt, w1) \<and> \<not> allDone (working_segments (properties tgt))
      \<and> api_GET_tip job (target_id tgt) w1 = (resp, w2)
      \<and> (tip_error resp \<noteq> None \<or> tip_data resp = None)"
  proof (cases "spread_limit job < length (working_segments (properties tgt))")
    case True
    with a processJob_range_error [of job w tgt w1] show ?thesis by simp
  next
    case False
    then have "length (working_segments (properties tgt)) \<le> spread_limit job" by simp
    with a processJob_tip_failed [of job w tgt w1 resp w2] False show ?thesis by simp
  qed
  have put_case: "processJob job w =
      (if spread_limit job < length (working_segments (properties tgt))
       then (Inl RangeError, w1)
       else (Inl (UpdateFailed e), w3))"
    if a: "fetchTarget job w = (Inr tgt, w1) \<and> \<not> allDone (working_segments (properties tgt))
      \<and> api_GET_tip job (target_id tgt) w1 = (resp, w2)
      \<and> tip_error resp = None \<and> tip_data resp = Some tp
      \<and> api_PUT job (target_id tgt)
           (update_body tgt tp (fst (split_segments (working_segments (properties tgt))))
              (js_add (case split_count (properties tgt) of None \<Rightarrow> 0 | Some n \<Rightarrow> n) 1)
              (recurseDepth job)) w2 = (Some e, w3)"
  proof (cases "spread_limit job < length (working_segments (properties tgt))")
    case True
    with a processJob_range_error [of job w tgt w1] show ?thesis by simp
  next
    case False
    then have l: "length (working_segments (properties tgt)) \<le> spread_limit job" by simp
    from a have f: "fetchTarget job w = (Inr tgt, w1)"
      and n: "\<not> allDone (working_segments (properties tgt))"
      and t: "api_GET_tip job (target_id tgt) w1 = (resp, w2)"
      and ok: "tip_error resp = None" "tip_data resp = Some tp"
      by simp_all
    from a False show ?thesis
      unfolding processJob_write [OF f l n t ok] by simp
  qed
  have store_case: "(\<exists>err. fst (processJob (store_job d pl) st) = Inl err)
    \<and> snd (processJob (store_job d pl) st) =
        (if max_arguments pl < length (working_segments (st_props st)) then st
         else concurrent_writes
                (before_tip pl @ (if tip_fault pl = None then before_put pl else [])) st)"
    if a: "fetch_fault pl = None \<and> \<not> allDone (working_segments (st_props st))
      \<and> (tip_fault pl \<noteq> None \<or> put_fault pl \<noteq> None \<or> before_put pl \<noteq> [])"
  proof -
    from a have f: "fetch_fault pl = None" and n: "\<not> allDone (working_segments (st_props st))"
      and fail: "tip_fault pl \<noteq> None \<or> put_fault pl \<noteq> None \<or> before_put pl \<noteq> []"
      by simp_all
    show ?thesis
    proof (cases "max_arguments pl < length (working_segments (st_props st))")
      case True
      from store_run_range_error [OF f True, of d] True show ?thesis by simp
    next
      case False
      then have l: "length (working_segments (st_props st)) \<le> max_arguments pl" by simp
      show ?thesis
      proof (cases "tip_fault pl")
        case (Some e1)
        from store_run_tip_failed [OF f l n Some] Some False show ?thesis by simp
      next
        case None
        with fail have "put_fault pl \<noteq> None \<or> before_put pl \<noteq> []" by simp
        with store_run_write [OF f l n None, of d] None False show ?thesis
          by (auto split: option.splits)
      qed
    qed
  qed
  show ?thesis
    by (rule conjI [OF impI [OF tip_case] conjI [OF impI [OF put_case] impI [OF store_case]]])
qed

text \<open>
  On the 80 times \<open>A\<close>: a failed tip read, a write rejected after another writer's
  relabelling, and a write that fails; each throws, and the record holds nothing of the
  invocation.
\<close>

theorem failures_raise_witness:
  "processJob (store_job 0 (quiet\<lparr>tip_fault := Some Unavailable\<rparr>)) record_A =
     (Inl (TipFailed (Some Unavailable)), record_A)
   \<and> processJob (store_job 0 (quiet\<lparr>before_put := [relabelled]\<rparr>)) record_A =
     (Inl (UpdateFailed Conflict), \<lparr>st_id = ''entity_A'', st_props = relabelled, st_tip = 1\<rparr>)
   \<and> fst (processJob (store_job 0 (quiet\<lparr>put_fault := Some Unavailable\<rparr>)) record_A) =
     Inl (UpdateFailed Unavailable)
   \<and> snd (processJob (store_job 0 (quiet\<lparr>put_fault := Some Unavailable\<rparr>)) record_A) = record_A"
proof -
  let ?tA = "\<lparr>target_id = ''entity_A'', properties = st_props record_A\<rparr>"
  let ?p1 = "quiet\<lparr>tip_fault := Some Unavailable\<rparr>"
  let ?p2 = "quiet\<lparr>before_put := [relabelled]\<rparr>"
  let ?p3 = "quiet\<lparr>put_fault := Some Unavailable\<rparr>"
  let ?r1 = "\<lparr>tip_data = None, tip_error = Some Unavailable\<rparr>"
  let ?r2 = "\<lparr>tip_data = Some \<lparr>tip_cid = 0\<rparr>, tip_error = None\<rparr>"
  let ?st2 = "\<lparr>st_id = ''entity_A'', st_props = relabelled, st_tip = 1\<rparr>"
  have h1: "fetchTarget (store_job 0 ?p1) record_A = (Inr ?tA, record_A)
      \<and> \<not> allDone (working_segments (properties ?tA))
      \<and> api_GET_tip (store_job 0 ?p1) (target_id ?tA) record_A = (?r1, record_A)
      \<and> (tip_error ?r1 \<noteq> None \<or> tip_data ?r1 = None)"
    by (simp add: store_job_sel store_calls eval_defs js_add_exact)
  have c1: "processJob (store_job 0 ?p1) record_A = (Inl (TipFailed (Some Unavailable)), record_A)"
    using failures_raise [where job = "store_job 0 ?p1" and w = record_A and tgt = ?tA
          and ?w1.0 = record_A and resp = ?r1 and ?w2.0 = record_A and tp = "\<lparr>tip_cid = 0\<rparr>"
          and e = Conflict and ?w3.0 = record_A and pl = ?p3 and st = record_A and d = 0,
          THEN conjunct1, THEN mp, OF h1]
    by (simp add: store_job_sel eval_defs)
  have h2: "fetchTarget (store_job 0 ?p2) record_A = (Inr ?tA, record_A)
      \<and> \<not> allDone (working_segments (properties ?tA))
      \<and> api_GET_tip (store_job 0 ?p2) (target_id ?tA) record_A = (?r2, record_A)
      \<and> tip_error ?r2 = None \<and> tip_data ?r2 = Some \<lparr>tip_cid = 0\<rparr>
      \<and> api_PUT (store_job 0 ?p2) (target_id ?tA)
           (update_body ?tA \<lparr>tip_cid = 0\<rparr>
              (fst (split_segments (working_segments (properties ?tA))))
              (js_add (case split_count (properties ?tA) of None \<Rightarrow> 0 | Some n \<Rightarrow> n) 1)
              (recurseDepth (store_job 0 ?p2))) record_A = (Some Conflict, ?st2)"
    by (simp add: store_job_sel store_calls eval_defs js_add_exact)
  have c2: "processJob (store_job 0 ?p2) record_A = (Inl (UpdateFailed Conflict), ?st2)"
    using failures_raise [where job = "store_job 0 ?p2" and w = record_A and tgt = ?tA
          and ?w1.0 = record_A and resp = ?r2 and ?w2.0 = record_A and tp = "\<lparr>tip_cid = 0\<rparr>"
          and e = Conflict and ?w3.0 = ?st2 and pl = ?p3 and st = record_A and d = 0,
          THEN conjunct2, THEN conjunct1, THEN mp, OF h2]
    by (simp add: store_job_sel eval_defs)
  have h3: "fetch_fault ?p3 = None \<and> \<not> allDone (working_segments (st_props record_A))
      \<and> (tip_fault ?p3 \<noteq> None \<or> put_fault ?p3 \<noteq> None \<or> before_put ?p3 \<noteq> [])"
    by (simp add: eval_defs)
  note c3 = failures_raise [where job = "store_job 0 ?p2" and w = record_A and tgt = ?tA
          and ?w1.0 = record_A and resp = ?r2 and ?w2.0 = record_A and tp = "\<lparr>tip_cid = 0\<rparr>"
          and e = Conflict and ?w3.0 = ?st2 and pl = ?p3 and st = record_A and d = 0,
          THEN conjunct2, THEN conjunct2, THEN mp, OF h3]
  have e3: "fst (processJob (store_job 0 ?p3) record_A) = Inl (UpdateFailed Unavailable)"
    by (simp add: processJob_def store_job_sel store_calls eval_defs js_add_exact)
  have s3: "snd (processJob (store_job 0 ?p3) record_A) = record_A"
    using c3 by (simp add: eval_defs)
  from c1 c2 e3 s3 show ?thesis by simp
qed

text \<open>
  C8, as stated, fails. On the 80 times \<open>A\<close>, another writer relabels the record after
  \<open>processJob\<close> has fetched it and before it reads the tip. The tip read returns the
  other writer's revision, the write guarded by it succeeds, and it writes the properties
  computed from the earlier fetch: the label is again the one that was fetched. So the
  write succeeded although the record was modified between the read the update is based
  on and the write.
\<close>

theorem lost_update:
  "processJob (store_job 0 (quiet\<lparr>before_tip := [relabelled]\<rparr>)) record_A =
     (Inr [\<lparr>entity_id = ''entity_A'', done_flag = False\<rparr>],
      \<lparr>st_id = ''entity_A'',
       st_props = \<lparr>text_prop = Some (replicate 80 0x41),
                   segments = Some [replicate 40 0x41, replicate 40 0x41],
                   split_count = Some 1, last_split_depth = Some 0,
                   extra = [''label'' \<mapsto> JStr [0x52, 0x54]]\<rparr>,
       st_tip = 2\<rparr>)
   \<and> extra (st_props record_A) ''label'' = Some (JStr [0x52, 0x54])
   \<and> extra (st_props (concurrent_writes
                        (before_tip (quiet\<lparr>before_tip := [relabelled]\<rparr>)) record_A)) ''label'' =
       Some (JStr [0x58])"
  by (simp add: processJob_def store_job_sel store_calls eval_defs js_add_exact)

text \<open>
  C8, amended. Against the store, a successful write by \<open>processJob\<close> implies that no
  other write was applied between its read of the version token and its own write; the
  store then holds the fetched properties with the three updated fields, one revision
  after the one the token named.
\<close>

theorem write_guard:
  assumes "processJob (store_job d pl) st = (Inr outs, st')"
    and "\<not> allDone (working_segments (st_props st))"
  shows "before_put pl = []
     \<and> outs = [\<lparr>entity_id = st_id st, done_flag = False\<rparr>]
     \<and> st' = store_write
          ((st_props st)
             \<lparr>segments := Some (fst (split_segments (working_segments (st_props st)))),
              split_count :=
                Some (js_add (case split_count (st_props st) of None \<Rightarrow> 0 | Some n \<Rightarrow> n) 1),
              last_split_depth := Some d\<rparr>)
          (concurrent_writes (before_tip pl) st)"
  using assms by (rule store_run_success)

text \<open>
  The run above once more: the write succeeds, and no write came between the token read
  and it.
\<close>

theorem write_guard_witness:
  "processJob (store_job 0 (quiet\<lparr>before_tip := [relabelled]\<rparr>)) record_A =
     (Inr [\<lparr>entity_id = ''entity_A'', done_flag = False\<rparr>],
      \<lparr>st_id = ''entity_A'',
       st_props = \<lparr>text_prop = Some (replicate 80 0x41),
                   segments = Some [replicate 40 0x41, replicate 40 0x41],
                   split_count = Some 1, last_split_depth = Some 0,
                   extra = [''label'' \<mapsto> JStr [0x52, 0x54]]\<rparr>,
       st_tip = 2\<rparr>)
   \<and> \<not> allDone (working_segments (st_props record_A))
   \<and> before_put (quiet\<lparr>before_tip := [relabelled]\<rparr>) = []"
proof -
  let ?pl = "quiet\<lparr>before_tip := [relabelled]\<rparr>"
  let ?st' = "\<lparr>st_id = ''entity_A'',
       st_props = \<lparr>text_prop = Some (replicate 80 0x41),
                   segments = Some [replicate 40 0x41, replicate 40 0x41],
                   split_count = Some 1, last_split_depth = Some 0,
                   extra = [''label'' \<mapsto> JStr [0x52, 0x54]]\<rparr>,
       st_tip = 2\<rparr>"
  have run: "processJob (store_job 0 ?pl) record_A =
     (Inr [\<lparr>entity_id = ''entity_A'', done_flag = False\<rparr>], ?st')"
    by (simp add: processJob_def store_job_sel store_calls eval_defs js_add_exact)
  have n: "\<not> allDone (working_segments (st_props record_A))"
    by (simp add: eval_defs)
  from write_guard [OF run n] have "before_put ?pl = []"
    by (rule conjunct1)
  with run n show ?thesis by blast
qed

text \<open>
  C9. Against the store, for every record state, every plan of faults and other writers,
  and any two recursion depths: the two invocations return the same result (the same
  outputs, or the same error), and leave stores with the same id, the same revision and
  the same properties except for \<open>last_split_depth\<close>; so the same segments and the same
  \<open>split_count\<close>.
\<close>

theorem depth_only_audit:
  "fst (processJob (store_job d1 pl) st) = fst (processJob (store_job d2 pl) st)
   \<and> st_id (snd (processJob (store_job d1 pl) st)) = st_id (snd (processJob (store_job d2 pl) st))
   \<and> st_tip (snd (processJob (store_job d1 pl) st)) = st_tip (snd (processJob (store_job d2 pl) st))
   \<and> (st_props (snd (processJob (store_job d1 pl) st)))\<lparr>last_split_depth := x\<rparr> =
      (st_props (snd (processJob (store_job d2 pl) st)))\<lparr>last_split_depth := x\<rparr>"
proof (cases "fetch_fault pl")
  case (Some e)
  then show ?thesis by (simp add: store_run_fetch_failed)
next
  case f: None
  show ?thesis
  proof (cases "length (working_segments (st_props st)) \<le> max_arguments pl")
    case False
    with f show ?thesis by (simp add: store_run_range_error)
  next
    case l: True
    show ?thesis
    proof (cases "allDone (working_segments (st_props st))")
      case True
      with f l show ?thesis by (simp add: store_run_done)
    next
      case n: False
      show ?thesis
      proof (cases "tip_fault pl")
        case (Some e)
        with f l n show ?thesis by (simp add: store_run_tip_failed)
      next
        case None
        show ?thesis
          unfolding store_run_write [OF f l n None]
          by (simp add: store_write_def split: option.splits)
      qed
    qed
  qed
qed

text \<open>
  On the 80 times \<open>A\<close>, at depths 0 and 7: the same result, segments and
  \<open>split_count\<close>; only \<open>last_split_depth\<close> differs.
\<close>

theorem depth_only_audit_witness:
  "fst (processJob (store_job 0 quiet) record_A) = fst (processJob (store_job 7 quiet) record_A)
   \<and> segments (st_props (snd (processJob (store_job 0 quiet) record_A))) =
       segments (st_props (snd (processJob (store_job 7 quiet) record_A)))
   \<and> split_count (st_props (snd (processJob (store_job 0 quiet) record_A))) =
       split_count (st_props (snd (processJob (store_job 7 quiet) record_A)))
   \<and> last_split_depth (st_props (snd (processJob (store_job 0 quiet) record_A))) = Some 0
   \<and> last_split_depth (st_props (snd (processJob (store_job 7 quiet) record_A))) = Some 7"
proof -
  let ?s0 = "snd (processJob (store_job 0 quiet) record_A)"
  let ?s7 = "snd (processJob (store_job 7 quiet) record_A)"
  note same = depth_only_audit [of 0 quiet record_A 7 None]
  from same have res: "fst (processJob (store_job 0 quiet) record_A) =
      fst (processJob (store_job 7 quiet) record_A)"
    by (rule conjunct1)
  from same have "(st_props ?s0)\<lparr>last_split_depth := None\<rparr> =
      (st_props ?s7)\<lparr>last_split_depth := None\<rparr>"
    by (elim conjE)
  then have "segments ((st_props ?s0)\<lparr>last_split_depth := None\<rparr>) =
      segments ((st_props ?s7)\<lparr>last_split_depth := None\<rparr>)
    \<and> split_count ((st_props ?s0)\<lparr>last_split_depth := None\<rparr>) =
      split_count ((st_props ?s7)\<lparr>last_split_depth := None\<rparr>)"
    by (simp only:)
  then have rest: "segments (st_props ?s0) = segments (st_props ?s7)
    \<and> split_count (st_props ?s0) = split_count (st_props ?s7)"
    by simp
  have d0: "last_split_depth (st_props ?s0) = Some 0"
    by (simp add: processJob_def store_job_sel store_calls eval_defs js_add_exact)
  have d7: "last_split_depth (st_props ?s7) = Some 7"
    by (simp add: processJob_def store_job_sel store_calls eval_defs js_add_exact)
  from res rest d0 d7 show ?thesis by blast
qed

text \<open>
  C10. Against the store, whenever \<open>processJob\<close> returns \<open>done = false\<close> (it has
  written), the properties written are those fetched at the start with only \<open>segments\<close>,
  \<open>split_count\<close> and \<open>last_split_depth\<close> replaced: \<open>text\<close> and every additional
  property are the fetched ones.
\<close>

theorem write_carries_other_properties:
  assumes "processJob (store_job d pl) st = (Inr [\<lparr>entity_id = i, done_flag = False\<rparr>], st')"
  shows "text_prop (st_props st') = text_prop (st_props st)
     \<and> extra (st_props st') = extra (st_props st)
     \<and> st_props st' =
        (st_props st)\<lparr>segments := segments (st_props st'),
                     split_count := split_count (st_props st'),
                     last_split_depth := last_split_depth (st_props st')\<rparr>"
proof -
  have f: "fetch_fault pl = None"
  proof (cases "fetch_fault pl")
    case (Some e)
    from store_run_fetch_failed [OF Some, of d st] assms(1) show ?thesis by simp
  qed simp
  have l: "length (working_segments (st_props st)) \<le> max_arguments pl"
  proof (rule ccontr)
    assume "\<not> ?thesis"
    then have "max_arguments pl < length (working_segments (st_props st))" by simp
    from store_run_range_error [OF f this, of d] assms show False by simp
  qed
  have n: "\<not> allDone (working_segments (st_props st))"
  proof
    assume "allDone (working_segments (st_props st))"
    from store_run_done [OF f l this, of d] assms show False by simp
  qed
  from store_run_success [OF assms n] show ?thesis
    by (simp add: store_write_def)
qed

text \<open>
  On the 80 times \<open>A\<close>, with another writer's relabelling before the tip read: the text
  and the label written are the fetched ones.
\<close>

theorem write_carries_other_properties_witness:
  "processJob (store_job 0 (quiet\<lparr>before_tip := [relabelled]\<rparr>)) record_A =
     (Inr [\<lparr>entity_id = ''entity_A'', done_flag = False\<rparr>],
      \<lparr>st_id = ''entity_A'',
       st_props = \<lparr>text_prop = Some (replicate 80 0x41),
                   segments = Some [replicate 40 0x41, replicate 40 0x41],
                   split_count = Some 1, last_split_depth = Some 0,
                   extra = [''label'' \<mapsto> JStr [0x52, 0x54]]\<rparr>,
       st_tip = 2\<rparr>)
   \<and> text_prop (st_props record_A) = Some (replicate 80 0x41)
   \<and> extra (st_props record_A) = [''label'' \<mapsto> JStr [0x52, 0x54]]"
proof -
  let ?pl = "quiet\<lparr>before_tip := [relabelled]\<rparr>"
  let ?st' = "\<lparr>st_id = ''entity_A'',
       st_props = \<lparr>text_prop = Some (replicate 80 0x41),
                   segments = Some [replicate 40 0x41, replicate 40 0x41],
                   split_count = Some 1, last_split_depth = Some 0,
                   extra = [''label'' \<mapsto> JStr [0x52, 0x54]]\<rparr>,
       st_tip = 2\<rparr>"
  have run: "processJob (store_job 0 ?pl) record_A =
     (Inr [\<lparr>entity_id = ''entity_A'', done_flag = False\<rparr>], ?st')"
    by (simp add: processJob_def store_job_sel store_calls eval_defs js_add_exact)
  from write_carries_other_properties [OF run]
  have "text_prop (st_props record_A) = Some (replicate 80 0x41)
      \<and> extra (st_props record_A) = [''label'' \<mapsto> JStr [0x52, 0x54]]"
    by simp
  with run show ?thesis by blast
qed

end
